theory Spec2Isabelle
  imports Main "HOL-Library.Word"
begin

section \<open>Machine types and the read system calls\<close>

text \<open>
  \<^verbatim>\<open>size_t\<close> is a 64-bit unsigned word; \<^verbatim>\<open>ssize_t\<close> values (the results of
  \<^verbatim>\<open>pread\<close> and \<^verbatim>\<open>read\<close>) are kept as integers, and enter \<^verbatim>\<open>size_t\<close>
  arithmetic through \<open>word_of_int\<close>, which is the conversion C++ applies in
  \<^verbatim>\<open>left_read_count -= bytesin\<close>.
\<close>

type_synonym byte = "8 word"
type_synonym size_t = "64 word"

text \<open>
  The kernel's side of a read. A file is its byte contents. Every read system call takes
  the next event of a script: \<open>IoFail\<close> makes the call return -1, \<open>IoShort k\<close> makes it
  transfer at most \<open>k + 1\<close> bytes (a short read); with the script used up, calls transfer
  all they can. A call never transfers more than \<open>SSIZE_MAX\<close> bytes, the largest count
  its result type can report, and returns 0 only when nothing is left at the position
  or nothing was asked for.
\<close>

datatype io_event = IoFail | IoShort nat

definition SSIZE_MAX :: nat where
  "SSIZE_MAX = 2 ^ 63 - 1"

definition sys_read :: "byte list \<Rightarrow> nat \<Rightarrow> nat \<Rightarrow> io_event list \<Rightarrow> (int \<times> byte list) \<times> io_event list" where
  "sys_read file pos n io =
     (case io of
        IoFail # io' \<Rightarrow> ((- 1, []), io')
      | IoShort k # io' \<Rightarrow>
          (let bs = take (min (Suc k) (min n SSIZE_MAX)) (drop pos file)
           in ((int (length bs), bs), io'))
      | [] \<Rightarrow>
          (let bs = take (min n SSIZE_MAX) (drop pos file)
           in ((int (length bs), bs), [])))"

text \<open>
  \<^verbatim>\<open>pread(fd, data, read_count, read_offset)\<close>: the \<^verbatim>\<open>size_t\<close> offset is passed as an
  \<^verbatim>\<open>off_t\<close>; from \<open>2 ^ 63\<close> on it is a negative \<^verbatim>\<open>off_t\<close> and the call fails (EINVAL).
\<close>

definition pread :: "byte list \<Rightarrow> size_t \<Rightarrow> size_t \<Rightarrow> io_event list \<Rightarrow> (int \<times> byte list) \<times> io_event list" where
  "pread file n off io =
     (if 2 ^ 63 \<le> unat off then ((- 1, []), io)
      else sys_read file (unat off) (unat n) io)"

section \<open>ReadDumpFile (rsync\_server.cc)\<close>

definition kMaxCopyBlockSize :: int where
  "kMaxCopyBlockSize = 2 ^ 20"

text \<open>The locals of the first loop; \<open>data\<close> is what has been stored through the \<^verbatim>\<open>data\<close> pointer.\<close>

record loop_state =
  read_offset :: size_t
  read_count :: size_t
  left_read_count :: size_t
  data :: "byte list"
  bytes_read :: size_t

datatype loop_step = Break | Continue loop_state

text \<open>
  The body of \<^verbatim>\<open>while ((bytesin = pread(...)) > 0)\<close>. The comparison
  \<^verbatim>\<open>left_read_count < 0\<close> is the unsigned one, as \<^verbatim>\<open>left_read_count\<close> is a \<^verbatim>\<open>size_t\<close>.
\<close>

definition loop_body :: "loop_state \<Rightarrow> int \<Rightarrow> loop_step" where
  "loop_body st bytesin =
     (let left = left_read_count st - word_of_int bytesin in
      if left < 0 then Break
      else Continue (st\<lparr>
        left_read_count := left,
        read_count := (if read_count st > left then left else read_count st),
        bytes_read := bytes_read st + word_of_int bytesin,
        read_offset := read_offset st + word_of_int bytesin\<rparr>))"

text \<open>What the loop keeps true of its counters: a read never asks for more than is left
  of the request, and asks for nothing only when nothing is left.\<close>

definition loop_inv :: "loop_state \<Rightarrow> bool" where
  "loop_inv st \<longleftrightarrow>
     read_count st \<le> left_read_count st \<and> (read_count st = 0 \<longrightarrow> left_read_count st = 0)"

function pread_loop :: "byte list \<Rightarrow> loop_state \<Rightarrow> io_event list \<Rightarrow> (int \<times> loop_state) \<times> io_event list" where
  "pread_loop file st io =
     (case pread file (read_count st) (read_offset st) io of
        ((bytesin, bs), io') \<Rightarrow>
          if bytesin > 0 then
            (case loop_body (st\<lparr>data := data st @ bs\<rparr>) bytesin of
               Break \<Rightarrow> ((bytesin, st\<lparr>data := data st @ bs\<rparr>), io')
             | Continue st' \<Rightarrow> pread_loop file st' io')
          else ((bytesin, st), io'))"
  by pat_completeness auto
termination
proof (relation "measure (\<lambda>(file, st, io). length file - unat (read_offset st))", goal_cases)
  case 1
  show ?case by simp
next
  case (2 f st io x io' bytesin bs st')
  let ?off = "unat (read_offset st)"
  from 2(1,2) have p: "pread f (read_count st) (read_offset st) io = ((bytesin, bs), io')"
    by simp
  with 2(3) have lt: "?off < 2 ^ 63"
    by (auto simp: pread_def split: if_splits)
  with p have "sys_read f ?off (unat (read_count st)) io = ((bytesin, bs), io')"
    by (simp add: pread_def)
  with 2(3) obtain m where m: "bs = take m (drop ?off f)" "bytesin = int (length bs)" "m \<le> SSIZE_MAX"
    by (auto simp: sys_read_def Let_def split: list.splits io_event.splits)
  from m(2) 2(3) have pos: "0 < length bs" by linarith
  from m(1) have le: "length bs \<le> length f - ?off" by simp
  from m(1,3) have "length bs < 2 ^ 63" by (simp add: SSIZE_MAX_def)
  then have u: "unat (word_of_nat (length bs) :: size_t) = length bs"
    by (simp add: unat_of_nat)
  with lt \<open>length bs < 2 ^ 63\<close>
  have "unat (read_offset st) + unat (word_of_nat (length bs) :: size_t) < 2 ^ LENGTH(64)"
    by simp
  then have "unat (read_offset st + word_of_nat (length bs)) = ?off + length bs"
    using u by (simp add: unat_add_lem [THEN iffD1])
  moreover from 2(4) m(2) have "read_offset st' = read_offset st + word_of_nat (length bs)"
    by (auto simp: loop_body_def Let_def split: if_splits)
  ultimately have "unat (read_offset st') = ?off + length bs" by simp
  with pos le have "length f - unat (read_offset st') < length f - ?off"
    by arith
  then show ?case by simp
qed

text \<open>
  Modelled from the spec: the hex MD5 digest (\<^verbatim>\<open>pstd::MD5\<close>, of pstd\_hash.h, is not in the
  sources). The digest object is kept as the bytes passed to \<^verbatim>\<open>update\<close> so far, and the
  string \<^verbatim>\<open>md5.finalize().hexdigest()\<close> is kept symbolically as \<open>MD5Hex bs\<close>, the hex MD5
  digest of \<open>bs\<close> (32 hex digits, so never the empty string); \<open>EmptyString\<close> is \<^verbatim>\<open>""\<close>.
\<close>

datatype checksum = EmptyString | MD5Hex "byte list"

text \<open>The second loop: \<^verbatim>\<open>while ((bytesin = read(fd, buffer, kMaxCopyBlockSize)) > 0) md5.update(buffer, bytesin)\<close>;
  \<open>pos\<close> is the descriptor's file position, which \<^verbatim>\<open>pread\<close> never moves.\<close>

function md5_loop :: "byte list \<Rightarrow> nat \<Rightarrow> byte list \<Rightarrow> io_event list \<Rightarrow> int \<times> byte list" where
  "md5_loop file pos md5 io =
     (case sys_read file pos (nat kMaxCopyBlockSize) io of
        ((bytesin, bs), io') \<Rightarrow>
          if bytesin > 0 then md5_loop file (pos + nat bytesin) (md5 @ bs) io'
          else (bytesin, md5))"
  by pat_completeness auto
termination
proof (relation "measure (\<lambda>(file, pos, md5, io). length file - pos)", goal_cases)
  case 1
  show ?case by simp
next
  case (2 f pos md5 io x io' bytesin bs)
  from 2(1,2) have "sys_read f pos (nat kMaxCopyBlockSize) io = ((bytesin, bs), io')"
    by simp
  with 2(3) obtain m where m: "bs = take m (drop pos f)" "bytesin = int (length bs)"
    by (auto simp: sys_read_def Let_def split: list.splits io_event.splits)
  from m(2) 2(3) have "0 < length bs" "nat bytesin = length bs" by simp_all
  moreover from m(1) have "length bs \<le> length f - pos" by simp
  ultimately have "length f - (pos + nat bytesin) < length f - pos"
    by arith
  then show ?case by simp
qed

datatype Status = OK | IOError string

text \<open>What the caller sees after the call: the returned status and the three out-parameters.\<close>

record read_result =
  status :: Status
  out_data :: "byte list"
  out_bytes_read :: size_t
  out_checksum :: checksum

text \<open>The locals as they stand when the first loop is entered.\<close>

definition loop_init :: "size_t \<Rightarrow> size_t \<Rightarrow> size_t \<Rightarrow> loop_state" where
  "loop_init offset count bytes_read0 =
     \<lparr>read_offset = offset,
      read_count = (if count > word_of_int kMaxCopyBlockSize
                    then word_of_int kMaxCopyBlockSize else count),
      left_read_count = count, data = [], bytes_read = bytes_read0\<rparr>"


text \<open>
  \<^verbatim>\<open>ReadDumpFile\<close>. \<open>fs\<close> maps a path to the contents of the file that
  \<^verbatim>\<open>open(filepath, O_RDONLY)\<close> yields, \<open>None\<close> where the open fails. \<open>bytes_read0\<close> and
  \<open>checksum0\<close> are the values that the caller's variables hold on entry; the result holds
  what they hold on return, and \<open>out_data\<close> what the call has stored in the caller's buffer.
\<close>

definition ReadDumpFile ::
  "(string \<rightharpoonup> byte list) \<Rightarrow> io_event list \<Rightarrow> string \<Rightarrow> size_t \<Rightarrow> size_t \<Rightarrow> size_t \<Rightarrow> checksum \<Rightarrow> read_result" where
  "ReadDumpFile fs io filepath offset count bytes_read0 checksum0 =
     (case fs filepath of
        None \<Rightarrow> \<lparr>status = IOError ''fd open failed'', out_data = [],
                 out_bytes_read = bytes_read0, out_checksum = checksum0\<rparr>
      | Some file \<Rightarrow>
          (case pread_loop file (loop_init offset count bytes_read0) io of
             ((bytesin, st), io') \<Rightarrow>
               if bytesin = - 1 then
                 \<lparr>status = IOError (''unable to read from '' @ filepath), out_data = data st,
                  out_bytes_read = bytes_read st, out_checksum = checksum0\<rparr>
               else if bytesin = 0 then
                 (case md5_loop file 0 [] io' of
                    (bytesin', md5) \<Rightarrow>
                      if bytesin' = - 1 then
                        \<lparr>status = IOError (''unable to read from '' @ filepath), out_data = data st,
                         out_bytes_read = bytes_read st, out_checksum = checksum0\<rparr>
                      else
                        \<lparr>status = OK, out_data = data st,
                         out_bytes_read = bytes_read st, out_checksum = MD5Hex md5\<rparr>)
               else
                 \<lparr>status = OK, out_data = data st,
                  out_bytes_read = bytes_read st, out_checksum = checksum0\<rparr>))"

section \<open>Requests, responses and the server's collaborators\<close>

text \<open>
  Modelled from the spec: the messages of the rsync protocol (the protobuf declarations of
  \<^verbatim>\<open>RsyncService\<close> are not in the sources), with the fields that the handlers read and
  set. \<open>kOtherType\<close> stands for any value of the request's type field that is neither of
  the two named ones: the \<^verbatim>\<open>default\<close> label of the switch in \<^verbatim>\<open>DealMessage\<close>. A variant that
  a response does not carry is \<open>None\<close>.
\<close>

datatype Type = kRsyncMeta | kRsyncFile | kOtherType nat

datatype StatusCode = kOk | kErr

record FileRequest =
  freq_filename :: string
  freq_offset :: "64 word"
  freq_count :: "64 word"

record RsyncRequest =
  req_type :: Type
  req_db_name :: string
  req_slot_id :: "32 word"
  req_file_req :: FileRequest

record MetaResponse =
  filenames :: "string list"

record FileResponse =
  fresp_data :: "byte list"
  fresp_eof :: bool
  fresp_checksum :: checksum
  fresp_filename :: string
  fresp_count :: "64 word"
  fresp_offset :: "64 word"

record RsyncResponse =
  code :: StatusCode
  resp_type :: Type
  db_name :: string
  slot_id :: "32 word"
  snapshot_uuid :: string
  meta_resp :: "MetaResponse option"
  file_resp :: "FileResponse option"

text \<open>
  \<^verbatim>\<open>g_pika_server\<close> (\<^verbatim>\<open>PikaServer\<close> and \<^verbatim>\<open>Slot\<close> are not in the sources) is a parameter of
  the handlers: the three calls that they make of it. \<open>GetDBSlotById\<close> yields \<open>None\<close>
  for the null pointer; \<open>GetDumpUUID\<close> yields whether the returned status is ok, and the
  string it stored; \<open>GetDumpMeta\<close> yields the file names and the uuid it stored.
\<close>

record Slot =
  IsBgSaving :: bool
  bgsave_info_path :: string

record PikaServer =
  GetDBSlotById :: "string \<Rightarrow> 32 word \<Rightarrow> Slot option"
  GetDumpUUID :: "string \<Rightarrow> 32 word \<Rightarrow> bool \<times> string"
  GetDumpMeta :: "string \<Rightarrow> 32 word \<Rightarrow> string list \<times> string"

text \<open>
  What a handler does to its connection, in order. \<open>conn_ok\<close> says that serialising the
  response and \<^verbatim>\<open>conn->WriteResp\<close> both succeed.
\<close>

datatype conn_event = WriteResp RsyncResponse | NotifyWrite | NotifyClose

definition RsyncWriteResp :: "bool \<Rightarrow> RsyncResponse \<Rightarrow> conn_event list" where
  "RsyncWriteResp conn_ok response =
     (if \<not> conn_ok then [NotifyClose] else [WriteResp response, NotifyWrite])"

text \<open>
  A handler returns, or it does not: it dereferences a null \<^verbatim>\<open>shared_ptr<Slot>\<close>
  (\<open>NullDeref\<close>), or \<^verbatim>\<open>new char[]\<close> throws and nothing catches (\<open>BadAlloc\<close>, the process
  is terminated), or bytes have been stored past the end of the buffer (\<open>BufferOverrun\<close>).
  Each outcome comes after the connection events listed.
\<close>

datatype handler_outcome =
    Returned "conn_event list"
  | NullDeref "conn_event list"
  | BadAlloc "conn_event list"
  | BufferOverrun "conn_event list"

text \<open>No array has more than \<open>PTRDIFF_MAX\<close> bytes: a larger \<^verbatim>\<open>new char[]\<close> always throws.\<close>

definition PTRDIFF_MAX :: nat where
  "PTRDIFF_MAX = 2 ^ 63 - 1"

section \<open>The handlers and DealMessage (rsync\_server.cc)\<close>

text \<open>
  \<^verbatim>\<open>HandleMetaRsyncRequest\<close> and \<^verbatim>\<open>HandleFileRsyncRequest\<close>, as functions of the server, the
  file system, the behaviour of the reads, the connection, the memory and the request.
  \<open>heap\<close> is the size of the largest array that \<^verbatim>\<open>new char[]\<close> can get when the file
  handler asks. The handler asks for \<^verbatim>\<open>count + 1\<close> bytes, a \<^verbatim>\<open>size_t\<close> sum: for the largest
  \<open>count\<close> it is 0, the array has no bytes, and whatever the reader stores is stored
  past its end.
\<close>

definition HandleMetaRsyncRequest :: "PikaServer \<Rightarrow> bool \<Rightarrow> RsyncRequest \<Rightarrow> handler_outcome" where
  "HandleMetaRsyncRequest server conn_ok req =
     (let dbn = req_db_name req; sid = req_slot_id req in
      case GetDBSlotById server dbn sid of
        None \<Rightarrow> Returned []
      | Some slot \<Rightarrow>
          if IsBgSaving slot then Returned []
          else
            (case GetDumpMeta server dbn sid of
               (fnames, uuid) \<Rightarrow>
                 Returned (RsyncWriteResp conn_ok
                   \<lparr>code = kOk, resp_type = kRsyncMeta, db_name = dbn, slot_id = sid,
                    snapshot_uuid = uuid,
                    meta_resp = Some \<lparr>filenames = fnames\<rparr>, file_resp = None\<rparr>)))"

definition HandleFileRsyncRequest ::
  "PikaServer \<Rightarrow> (string \<rightharpoonup> byte list) \<Rightarrow> io_event list \<Rightarrow> bool \<Rightarrow> nat \<Rightarrow> RsyncRequest \<Rightarrow> handler_outcome" where
  "HandleFileRsyncRequest server fs io conn_ok heap req =
     (let sid = req_slot_id req; dbn = req_db_name req;
          filename = freq_filename (req_file_req req);
          offset = freq_offset (req_file_req req);
          count = freq_count (req_file_req req)
      in case GetDumpUUID server dbn sid of
        (s_ok, uuid) \<Rightarrow>
          (let response = \<lparr>code = kOk, resp_type = kRsyncFile, db_name = dbn, slot_id = sid,
                           snapshot_uuid = uuid, meta_resp = None, file_resp = None\<rparr>
           in if \<not> s_ok then Returned (RsyncWriteResp conn_ok (response\<lparr>code := kErr\<rparr>))
              else
                (case GetDBSlotById server dbn sid of
                   None \<Rightarrow> NullDeref (RsyncWriteResp conn_ok (response\<lparr>code := kErr\<rparr>))
                 | Some slot \<Rightarrow>
                     (let filepath = bgsave_info_path slot @ ''/'' @ filename;
                          buffer_size = unat (count + 1)
                      in if min heap PTRDIFF_MAX < buffer_size then BadAlloc []
                         else
                           (let r = ReadDumpFile fs io filepath offset count 0 EmptyString
                            in if buffer_size < length (out_data r) then BufferOverrun []
                               else if status r \<noteq> OK
                               then Returned (RsyncWriteResp conn_ok (response\<lparr>code := kErr\<rparr>))
                               else Returned (RsyncWriteResp conn_ok (response\<lparr>file_resp := Some
                                 \<lparr>fresp_data = take (unat (out_bytes_read r)) (out_data r),
                                  fresp_eof = (out_bytes_read r \<noteq> count),
                                  fresp_checksum = out_checksum r,
                                  fresp_filename = filename,
                                  fresp_count = out_bytes_read r,
                                  fresp_offset = offset\<rparr>\<rparr>)))))))"

text \<open>
  \<^verbatim>\<open>DealMessage\<close>: \<open>parsed\<close> is the outcome of \<^verbatim>\<open>ParseFromArray\<close> (\<open>None\<close>: it failed). The
  result is the returned \<^verbatim>\<open>int\<close> and the tasks handed to \<^verbatim>\<open>Schedule\<close>.
\<close>

datatype task = MetaTask RsyncRequest | FileTask RsyncRequest

definition DealMessage :: "RsyncRequest option \<Rightarrow> int \<times> task list" where
  "DealMessage parsed =
     (case parsed of
        None \<Rightarrow> (- 1, [])
      | Some req \<Rightarrow>
          (case req_type req of
             kRsyncMeta \<Rightarrow> (0, [MetaTask req])
           | kRsyncFile \<Rightarrow> (0, [FileTask req])
           | kOtherType _ \<Rightarrow> (0, [])))"

text \<open>A worker runs a scheduled task by calling its handler; the events of a list of
  tasks, in order, are all that the tasks do to the connection.\<close>

definition run_task :: "PikaServer \<Rightarrow> (string \<rightharpoonup> byte list) \<Rightarrow> io_event list \<Rightarrow> bool \<Rightarrow> nat \<Rightarrow> task \<Rightarrow> handler_outcome" where
  "run_task server fs io conn_ok heap t =
     (case t of
        MetaTask req \<Rightarrow> HandleMetaRsyncRequest server conn_ok req
      | FileTask req \<Rightarrow> HandleFileRsyncRequest server fs io conn_ok heap req)"

fun events_of :: "handler_outcome \<Rightarrow> conn_event list" where
  "events_of (Returned evs) = evs"
| "events_of (NullDeref evs) = evs"
| "events_of (BadAlloc evs) = evs"
| "events_of (BufferOverrun evs) = evs"

section \<open>List records and the compaction filters (storage)\<close>

text \<open>
  Of this part the repository's sources here hold the test (lists\_filter\_test.cc), not
  \<^verbatim>\<open>ListsMetaValue\<close>, \<^verbatim>\<open>ListsDataKey\<close>, \<^verbatim>\<open>ListsMetaFilter\<close> and \<^verbatim>\<open>ListsDataFilter\<close>
  themselves; every definition of this section follows the specification. Versions,
  deadlines and clock readings are integers, the values of the signed fields; what is
  stored into a field is brought into the range of the field.
\<close>

text \<open>Modelled from the spec: the fixed-width integers of the codec of records (the codec
  is not in the sources); a field is its bytes, least significant first inside values
  and most significant first inside keys.\<close>

fun le_decode :: "byte list \<Rightarrow> nat" where
  "le_decode [] = 0"
| "le_decode (b # bs) = unat b + 256 * le_decode bs"

text \<open>Modelled from the spec: the big-endian fields of keys (the codec is not in the
  sources).\<close>

definition be_decode :: "byte list \<Rightarrow> nat" where
  "be_decode bs = le_decode (rev bs)"

text \<open>Modelled from the spec: the error of the parse functions (they are not in the
  sources).\<close>

datatype codec_error = CorruptRecord

text \<open>Modelled from the spec: the list meta record (\<^verbatim>\<open>ListsMetaValue\<close> is not in the
  sources): \<open>size\<close>, \<open>version\<close>, \<open>ttl\<close> with 0 for no expiry, and the trailing fields
  that the filters do not read.\<close>

record meta_value =
  mv_size :: "64 word"
  mv_version :: int
  mv_ttl :: int
  mv_trailing :: "byte list"

text \<open>
  Modelled from the spec: \<^verbatim>\<open>parse_meta\<close> (the parser of \<^verbatim>\<open>ListsMetaValue\<close> is not in
  the sources). The value is \<open>size\<close> (unsigned 64-bit), \<open>version\<close> (signed 32-bit),
  \<open>ttl\<close> (signed 64-bit), little-endian as the fields of values are, then trailing
  bytes that are kept as they are; a value shorter than the fixed prefix is corrupt.
\<close>

definition parse_meta :: "byte list \<Rightarrow> codec_error + meta_value" where
  "parse_meta v =
     (if length v < 20 then Inl CorruptRecord
      else Inr \<lparr>mv_size = word_of_nat (le_decode (take 8 v)),
                mv_version = sint (word_of_nat (le_decode (take 4 (drop 8 v))) :: 32 word),
                mv_ttl = sint (word_of_nat (le_decode (take 8 (drop 12 v))) :: 64 word),
                mv_trailing = drop 20 v\<rparr>)"

text \<open>
  Modelled from the spec: \<^verbatim>\<open>parse_data_key\<close> (the parser of \<^verbatim>\<open>ListsDataKey\<close> is not in
  the sources). The key is the user key, then \<open>version\<close> (32-bit) and \<open>index\<close> (64-bit),
  both big-endian.
\<close>

definition parse_data_key :: "byte list \<Rightarrow> codec_error + (byte list \<times> int \<times> 64 word)" where
  "parse_data_key k =
     (if length k < 12 then Inl CorruptRecord
      else (let n = length k - 12
            in Inr (take n k,
                    sint (word_of_nat (be_decode (take 4 (drop n k))) :: 32 word),
                    word_of_nat (be_decode (drop (n + 4) k)))))"

text \<open>
  Modelled from the spec: the value that the signed 32-bit \<open>version\<close> field holds after
  \<open>v\<close> is stored into it (\<^verbatim>\<open>ListsMetaValue\<close> is not in the sources). It is \<open>v\<close> where \<open>v\<close>
  is a signed 32-bit value. The specification does not say what the field holds
  otherwise: here it is \<open>v\<close> modulo \<open>2 ^ 32\<close>, what the conversion to \<^verbatim>\<open>int32_t\<close> gives;
  whatever it is, it is at most \<open>2 ^ 31 - 1\<close>.
\<close>

definition store_int32 :: "int \<Rightarrow> int" where
  "store_int32 v = sint (word_of_int v :: 32 word)"

text \<open>Modelled from the spec: the same for the signed 64-bit \<open>ttl\<close> field
  (\<^verbatim>\<open>ListsMetaValue\<close> is not in the sources).\<close>

definition store_int64 :: "int \<Rightarrow> int" where
  "store_int64 v = sint (word_of_int v :: 64 word)"

text \<open>
  Modelled from the spec: \<^verbatim>\<open>update_version\<close> (\<^verbatim>\<open>ListsMetaValue::UpdateVersion\<close> is not in
  the sources). \<open>now\<close> is the clock reading, in unix seconds, of this call; the larger of
  the old version plus 1 and \<open>now\<close> is stored into the version field, and the caller
  receives the new version.
\<close>

definition update_version :: "int \<Rightarrow> meta_value \<Rightarrow> int \<times> meta_value" where
  "update_version now m =
     (let v = store_int32 (max (mv_version m + 1) now) in (v, m\<lparr>mv_version := v\<rparr>))"

text \<open>Modelled from the spec: successive \<^verbatim>\<open>update_version\<close> calls on one record
  (\<^verbatim>\<open>UpdateVersion\<close> is not in the sources), one clock reading for each call; the
  versions that the calls return.\<close>

fun update_versions :: "meta_value \<Rightarrow> int list \<Rightarrow> int list" where
  "update_versions m [] = []"
| "update_versions m (t # ts) =
     (case update_version t m of (v, m') \<Rightarrow> v # update_versions m' ts)"

text \<open>Modelled from the spec: \<^verbatim>\<open>set_relative_timestamp\<close>
  (\<^verbatim>\<open>ListsMetaValue::SetRelativeTimestamp\<close> is not in the sources): it stores
  \<open>now + seconds\<close> into the ttl field.\<close>

definition set_relative_timestamp :: "int \<Rightarrow> int \<Rightarrow> meta_value \<Rightarrow> meta_value" where
  "set_relative_timestamp now seconds m = m\<lparr>mv_ttl := store_int64 (now + seconds)\<rparr>"

text \<open>Modelled from the spec: the versions that successive \<^verbatim>\<open>update_version\<close> calls are to
  set according to the formula \<open>max(old_version + 1, current_unix_seconds)\<close>, as integers
  (\<^verbatim>\<open>UpdateVersion\<close> is not in the sources); \<open>v\<close> is the version before the first call.\<close>

fun formula_versions :: "int \<Rightarrow> int list \<Rightarrow> int list" where
  "formula_versions v [] = []"
| "formula_versions v (t # ts) = max (v + 1) t # formula_versions (max (v + 1) t) ts"

text \<open>
  Modelled from the spec: the meta filter (\<^verbatim>\<open>ListsMetaFilter::Filter\<close> is not in the
  sources). \<open>True\<close> is drop. A value that does not parse is kept: filter errors become
  \<^verbatim>\<open>drop = false\<close>.
\<close>

definition ListsMetaFilter :: "int \<Rightarrow> byte list \<Rightarrow> bool" where
  "ListsMetaFilter now v =
     (case parse_meta v of
        Inl _ \<Rightarrow> False
      | Inr m \<Rightarrow> mv_size m = 0 \<or> (mv_ttl m \<noteq> 0 \<and> mv_ttl m < now))"

text \<open>
  Modelled from the spec: the mutable state of a data filter instance
  (\<^verbatim>\<open>ListsDataFilter\<close> is not in the sources), its single-entry cache
  \<open>(last_user_key, meta_exists, meta_version, meta_ttl)\<close>; \<open>last_user_key\<close> is \<open>None\<close>
  until the first lookup.
\<close>

record filter_state =
  last_user_key :: "byte list option"
  meta_exists :: bool
  meta_version :: int
  meta_ttl :: int

text \<open>Modelled from the spec: a data filter instance as constructed (the constructor of
  \<^verbatim>\<open>ListsDataFilter\<close> is not in the sources), with nothing cached.\<close>

definition new_filter :: filter_state where
  "new_filter = \<lparr>last_user_key = None, meta_exists = False, meta_version = 0, meta_ttl = 0\<rparr>"

text \<open>Modelled from the spec: the slow path of the data filter (\<^verbatim>\<open>ListsDataFilter::Filter\<close>
  is not in the sources), a point lookup in the meta column family \<open>meta_cf\<close>, whose
  outcome is cached.\<close>

definition lookup_meta :: "(byte list \<rightharpoonup> meta_value) \<Rightarrow> byte list \<Rightarrow> filter_state \<Rightarrow> filter_state" where
  "lookup_meta meta_cf user_key c =
     (case meta_cf user_key of
        None \<Rightarrow> c\<lparr>last_user_key := Some user_key, meta_exists := False\<rparr>
      | Some m \<Rightarrow> \<lparr>last_user_key = Some user_key, meta_exists = True,
                    meta_version = mv_version m, meta_ttl = mv_ttl m\<rparr>)"

text \<open>
  Modelled from the spec: the data filter (\<^verbatim>\<open>ListsDataFilter::Filter\<close> is not in the
  sources). \<open>True\<close> is drop; the result carries the state the instance is left in. A
  key that does not parse is dropped.
\<close>

definition ListsDataFilter ::
  "(byte list \<rightharpoonup> meta_value) \<Rightarrow> int \<Rightarrow> filter_state \<Rightarrow> byte list \<Rightarrow> bool \<times> filter_state" where
  "ListsDataFilter meta_cf now c key =
     (case parse_data_key key of
        Inl _ \<Rightarrow> (True, c)
      | Inr (user_key, version_d, index) \<Rightarrow>
          (let c' = (if last_user_key c = Some user_key then c
                     else lookup_meta meta_cf user_key c)
           in (if \<not> meta_exists c' then True
               else if meta_ttl c' \<noteq> 0 \<and> meta_ttl c' < now then True
               else if version_d < meta_version c' then True
               else False,
               c')))"


text \<open>Modelled from the spec: what the cache of a data filter holds (\<^verbatim>\<open>ListsDataFilter\<close> is
  not in the sources): nothing, or what a lookup of its key in \<open>meta_cf\<close> gives.\<close>

definition cache_ok :: "(byte list \<rightharpoonup> meta_value) \<Rightarrow> filter_state \<Rightarrow> bool" where
  "cache_ok meta_cf c =
     (case last_user_key c of
        None \<Rightarrow> True
      | Some k \<Rightarrow>
          (case meta_cf k of
             None \<Rightarrow> \<not> meta_exists c
           | Some m \<Rightarrow> meta_exists c \<and> meta_version c = mv_version m \<and> meta_ttl c = mv_ttl m))"

section \<open>Fixtures\<close>

text \<open>
  A server with one partition, \<open>db0\<close> slot 0, whose snapshot directory is \<open>dump\<close>; its
  uuid lookup answers for every partition. \<open>fs_sst\<close> holds the 2.5 MiB file
  \<open>00001.sst\<close> in that directory, \<open>fs_small\<close> a file of four bytes.
\<close>

definition server0 :: PikaServer where
  "server0 =
     \<lparr>GetDBSlotById = (\<lambda>dbn sid. if dbn = ''db0'' \<and> sid = 0
                          then Some \<lparr>IsBgSaving = False, bgsave_info_path = ''dump''\<rparr> else None),
      GetDumpUUID = (\<lambda>dbn sid. (True, ''uuid-1'')),
      GetDumpMeta = (\<lambda>dbn sid. ([''00001.sst''], ''uuid-1''))\<rparr>"

definition server_bgsaving :: PikaServer where
  "server_bgsaving =
     \<lparr>GetDBSlotById = (\<lambda>dbn sid. if dbn = ''db0'' \<and> sid = 0
                          then Some \<lparr>IsBgSaving = True, bgsave_info_path = ''dump''\<rparr> else None),
      GetDumpUUID = (\<lambda>dbn sid. (True, ''uuid-1'')),
      GetDumpMeta = (\<lambda>dbn sid. ([''00001.sst''], ''uuid-1''))\<rparr>"

text \<open>A gigabyte is to be had from \<^verbatim>\<open>new char[]\<close>.\<close>

definition heap0 :: nat where
  "heap0 = 2 ^ 30"

definition fs_sst :: "string \<rightharpoonup> byte list" where
  "fs_sst = [''dump/00001.sst'' \<mapsto> replicate 2621440 0]"

definition fs_small :: "string \<rightharpoonup> byte list" where
  "fs_small = [''dump/f'' \<mapsto> [1, 2, 3, 4]]"

definition file_request :: "string \<Rightarrow> 32 word \<Rightarrow> string \<Rightarrow> 64 word \<Rightarrow> 64 word \<Rightarrow> RsyncRequest" where
  "file_request dbn sid name off cnt =
     \<lparr>req_type = kRsyncFile, req_db_name = dbn, req_slot_id = sid,
      req_file_req = \<lparr>freq_filename = name, freq_offset = off, freq_count = cnt\<rparr>\<rparr>"

definition meta_request :: "string \<Rightarrow> 32 word \<Rightarrow> RsyncRequest" where
  "meta_request dbn sid =
     \<lparr>req_type = kRsyncMeta, req_db_name = dbn, req_slot_id = sid,
      req_file_req = \<lparr>freq_filename = [], freq_offset = 0, freq_count = 0\<rparr>\<rparr>"


section \<open>Properties of the read loops\<close>

lemma sys_read_pos:
  assumes "sys_read file pos n io = ((k, bs), io')" and "0 < k"
  shows "k = int (length bs) \<and> length bs \<le> n \<and> length bs \<le> SSIZE_MAX
         \<and> bs = take (length bs) (drop pos file) \<and> pos + length bs \<le> length file"
proof -
  from assms obtain m where m: "bs = take m (drop pos file)" "k = int (length bs)" "m \<le> n" "m \<le> SSIZE_MAX"
    by (auto simp: sys_read_def Let_def split: list.splits io_event.splits)
  from m(1) have "bs = take (length bs) (drop pos file)"
    by (metis append_eq_conv_conj append_take_drop_id)
  moreover from m(1) have "length bs \<le> m" by simp
  moreover from m(1) have "length bs \<le> length file - pos" by simp
  moreover from m(2) assms(2) have "0 < length bs" by simp
  ultimately show ?thesis using m by auto
qed

lemma pread_pos:
  assumes "pread file n off io = ((k, bs), io')" and "0 < k"
  shows "k = int (length bs) \<and> length bs \<le> unat n \<and> length bs \<le> SSIZE_MAX
         \<and> bs = take (length bs) (drop (unat off) file)
         \<and> unat off + length bs \<le> length file \<and> unat off < 2 ^ 63"
proof -
  from assms have lt: "unat off < 2 ^ 63"
    by (auto simp: pread_def split: if_splits)
  with assms have "sys_read file (unat off) (unat n) io = ((k, bs), io')"
    by (simp add: pread_def)
  from sys_read_pos [OF this assms(2)] lt show ?thesis by simp
qed

lemma unat_add_read:
  fixes off :: size_t
  assumes "unat off < 2 ^ 63" and "m \<le> SSIZE_MAX"
  shows "unat (off + word_of_nat m) = unat off + m"
proof -
  have m: "m < 2 ^ 64" using assms(2) by (simp add: SSIZE_MAX_def)
  have "unat (word_of_nat m :: size_t) = m"
    using m by (simp add: unat_of_nat)
  moreover have "unat off + m < 2 ^ 64"
    using assms by (simp add: SSIZE_MAX_def)
  ultimately show ?thesis
    by (simp add: unat_add_lem [THEN iffD1])
qed

lemma loop_body_never_Break: "loop_body st bytesin \<noteq> Break"
  by (simp add: loop_body_def Let_def)

lemma sys_read_result:
  assumes "sys_read file pos n io = ((k, bs), io')"
  shows "k = - 1 \<or> 0 \<le> k"
  using assms by (auto simp: sys_read_def Let_def split: list.splits io_event.splits)

lemma pread_result:
  assumes "pread file n off io = ((k, bs), io')"
  shows "k = - 1 \<or> 0 \<le> k"
  using assms sys_read_result by (auto simp: pread_def split: if_splits)

lemma pread_loop_exit: "fst (fst (pread_loop fl st io)) = 0 \<or> fst (fst (pread_loop fl st io)) = - 1"
proof (induction fl st io rule: pread_loop.induct)
  case (1 fl st io)
  obtain k bs io' where p: "pread fl (read_count st) (read_offset st) io = ((k, bs), io')"
    by (metis prod.exhaust)
  show ?case
  proof (cases "0 < k")
    case True
    obtain st' where b: "loop_body (st\<lparr>data := data st @ bs\<rparr>) k = Continue st'"
      using loop_body_never_Break by (cases "loop_body (st\<lparr>data := data st @ bs\<rparr>) k") auto
    from 1 [OF p [symmetric] refl True b] show ?thesis
      using p True b by (simp add: pread_loop.simps [of fl st io])
  next
    case False
    with pread_result [OF p] have "k = 0 \<or> k = - 1" by auto
    then show ?thesis using p False
      by (auto simp: pread_loop.simps [of fl st io])
  qed
qed

lemma loop_body_step:
  assumes "read_count st \<le> left_read_count st" and "0 < m" and "m \<le> unat (read_count st)"
  shows "\<exists>st'. loop_body st (int m) = Continue st'
     \<and> unat (left_read_count st') = unat (left_read_count st) - m
     \<and> read_count st' \<le> left_read_count st'
     \<and> read_count st' \<le> read_count st
     \<and> bytes_read st' = bytes_read st + word_of_nat m
     \<and> read_offset st' = read_offset st + word_of_nat m
     \<and> data st' = data st"
proof -
  have le: "unat (read_count st) \<le> unat (left_read_count st)"
    using assms(1) by (simp add: word_le_nat_alt)
  have "unat (read_count st) < 2 ^ 64" using unsigned_less [of "read_count st"] by simp
  with assms(3) have m64: "m < 2 ^ 64" by simp
  have um: "unat (word_of_nat m :: size_t) = m" using m64 by (simp add: unat_of_nat)
  have "word_of_nat m \<le> left_read_count st"
    using le assms(3) um by (simp add: word_le_nat_alt)
  then have "unat (left_read_count st - word_of_nat m) = unat (left_read_count st) - m"
    using um by (simp add: unat_sub)
  then show ?thesis
    by (auto simp: loop_body_def Let_def)
qed

lemma loop_body_inv:
  assumes "loop_inv st" and "0 < m" and "m \<le> unat (read_count st)"
  shows "\<exists>st'. loop_body st (int m) = Continue st' \<and> loop_inv st'
     \<and> unat (left_read_count st') = unat (left_read_count st) - m
     \<and> m \<le> unat (left_read_count st)
     \<and> bytes_read st' = bytes_read st + word_of_nat m
     \<and> read_offset st' = read_offset st + word_of_nat m
     \<and> data st' = data st"
proof -
  from assms(1) have rl: "read_count st \<le> left_read_count st"
    by (simp add: loop_inv_def)
  from loop_body_step [OF rl assms(2,3)] obtain st' where
    s: "loop_body st (int m) = Continue st'"
       "unat (left_read_count st') = unat (left_read_count st) - m"
       "read_count st' \<le> left_read_count st'"
       "bytes_read st' = bytes_read st + word_of_nat m"
       "read_offset st' = read_offset st + word_of_nat m"
       "data st' = data st"
    by blast
  from s(1) have rc: "read_count st' = (if read_count st > left_read_count st' then left_read_count st' else read_count st)"
    by (auto simp: loop_body_def Let_def split: if_splits)
  from assms(2,3) have "read_count st \<noteq> 0"
    by (auto simp: unat_eq_0)
  with rc have z: "read_count st' = 0 \<longrightarrow> left_read_count st' = 0"
    by (auto split: if_splits)
  from rl assms(3) have "m \<le> unat (left_read_count st)"
    by (simp add: word_le_nat_alt)
  with s z show ?thesis by (auto simp: loop_inv_def)
qed

lemma pread_zero:
  assumes "pread fl n off io = ((0, bs), io')"
  shows "n = 0 \<or> length fl \<le> unat off"
proof -
  from assms have s: "sys_read fl (unat off) (unat n) io = ((0, bs), io')"
    by (auto simp: pread_def split: if_splits)
  have "unat n = 0 \<or> drop (unat off) fl = []"
    using s by (auto simp: sys_read_def Let_def SSIZE_MAX_def min_def split: list.splits io_event.splits if_splits)
  then show ?thesis by (auto simp: unat_eq_0)
qed

lemma pread_loop_inv:
  assumes "pread_loop fl st io = ((b, st'), io')" and "loop_inv st"
  shows "\<exists>n. n \<le> unat (left_read_count st)
     \<and> unat (left_read_count st') = unat (left_read_count st) - n
     \<and> bytes_read st' = bytes_read st + word_of_nat n
     \<and> data st' = data st @ take n (drop (unat (read_offset st)) fl)
     \<and> n \<le> length fl - unat (read_offset st)
     \<and> unat (read_offset st') = unat (read_offset st) + n
     \<and> (b = 0 \<longrightarrow> left_read_count st' = 0 \<or> length fl \<le> unat (read_offset st'))"
  using assms
proof (induction fl st io rule: pread_loop.induct)
  case (1 fl st io)
  obtain k bs io1 where p: "pread fl (read_count st) (read_offset st) io = ((k, bs), io1)"
    by (metis prod.exhaust)
  show ?case
  proof (cases "0 < k")
    case False
    with p "1.prems"(1) have e: "b = k" "st' = st"
      by (auto simp: pread_loop.simps [of fl st io])
    have "b = 0 \<longrightarrow> left_read_count st = 0 \<or> length fl \<le> unat (read_offset st)"
      using pread_zero [of fl "read_count st" "read_offset st" io bs io1] p e "1.prems"(2)
      by (auto simp: loop_inv_def)
    then show ?thesis using e by (intro exI [of _ 0]) simp
  next
    case True
    note pp = pread_pos [OF p True]
    let ?m = "length bs"
    let ?st1 = "st\<lparr>data := data st @ bs\<rparr>"
    from pp True have m: "0 < ?m" "?m \<le> unat (read_count ?st1)" "k = int ?m" by auto
    have inv1: "loop_inv ?st1" using "1.prems"(2) by (simp add: loop_inv_def)
    from loop_body_inv [OF inv1 m(1,2)] obtain st2 where
      s: "loop_body ?st1 (int ?m) = Continue st2" "loop_inv st2"
         "unat (left_read_count st2) = unat (left_read_count st) - ?m"
         "?m \<le> unat (left_read_count st)"
         "bytes_read st2 = bytes_read st + word_of_nat ?m"
         "read_offset st2 = read_offset st + word_of_nat ?m"
         "data st2 = data st @ bs"
      by auto
    from s(1) m(3) have b: "loop_body ?st1 k = Continue st2" by simp
    from "1.prems"(1) p True b have r: "pread_loop fl st2 io1 = ((b, st'), io')"
      by (simp add: pread_loop.simps [of fl st io])
    from "1.IH" [OF p [symmetric] refl True b r s(2)] obtain n where
      n: "n \<le> unat (left_read_count st2)"
         "unat (left_read_count st') = unat (left_read_count st2) - n"
         "bytes_read st' = bytes_read st2 + word_of_nat n"
         "data st' = data st2 @ take n (drop (unat (read_offset st2)) fl)"
         "n \<le> length fl - unat (read_offset st2)"
         "unat (read_offset st') = unat (read_offset st2) + n"
         "b = 0 \<longrightarrow> left_read_count st' = 0 \<or> length fl \<le> unat (read_offset st')"
      by blast
    from pp have off2: "unat (read_offset st2) = unat (read_offset st) + ?m"
      by (simp add: s(6) unat_add_read)
    from pp have bs: "bs = take ?m (drop (unat (read_offset st)) fl)" by blast
    from pp have le: "unat (read_offset st) + ?m \<le> length fl" by blast
    have d: "data st' = data st @ take (?m + n) (drop (unat (read_offset st)) fl)"
    proof -
      have "take (?m + n) (drop (unat (read_offset st)) fl)
          = take ?m (drop (unat (read_offset st)) fl) @ take n (drop (unat (read_offset st) + ?m) fl)"
        by (simp add: take_add [of "length bs" n] add.commute [of "length bs" "unat (read_offset st)"])
      with n(4) s(7) off2 bs show ?thesis by simp
    qed
    show ?thesis
    proof (intro exI [of _ "?m + n"] conjI)
      show "?m + n \<le> unat (left_read_count st)" using n(1) s(3,4) by arith
      show "unat (left_read_count st') = unat (left_read_count st) - (?m + n)"
        using n(2) s(3) by arith
      show "bytes_read st' = bytes_read st + word_of_nat (?m + n)"
        using n(3) s(5) by simp
      show "data st' = data st @ take (?m + n) (drop (unat (read_offset st)) fl)" by (rule d)
      show "?m + n \<le> length fl - unat (read_offset st)" using n(5) off2 le by arith
      show "unat (read_offset st') = unat (read_offset st) + (?m + n)" using n(6) off2 by arith
      show "b = 0 \<longrightarrow> left_read_count st' = 0 \<or> length fl \<le> unat (read_offset st')" by (rule n(7))
    qed
  qed
qed

lemma sys_read_zero:
  assumes "sys_read fl pos n io = ((0, bs), io')" and "0 < n"
  shows "drop pos fl = []"
  using assms
  by (auto simp: sys_read_def Let_def SSIZE_MAX_def min_def split: list.splits io_event.splits if_splits)

lemma md5_loop_result:
  assumes "md5_loop fl pos md5 io = (b, m)"
  shows "b = - 1 \<or> (b = 0 \<and> m = md5 @ drop pos fl)"
  using assms
proof (induction fl pos md5 io rule: md5_loop.induct)
  case (1 fl pos md5 io)
  obtain k bs io1 where p: "sys_read fl pos (nat kMaxCopyBlockSize) io = ((k, bs), io1)"
    by (metis prod.exhaust)
  show ?case
  proof (cases "0 < k")
    case False
    with p "1.prems" have e: "b = k" "m = md5"
      by (auto simp: md5_loop.simps [of fl pos md5 io])
    from sys_read_result [OF p] False have "k = - 1 \<or> k = 0" by auto
    then show ?thesis
    proof
      assume "k = - 1" with e show ?thesis by simp
    next
      assume k: "k = 0"
      with p have "drop pos fl = []"
        by (intro sys_read_zero [of fl pos "nat kMaxCopyBlockSize" io bs io1]) (simp_all add: kMaxCopyBlockSize_def)
      with e k show ?thesis by simp
    qed
  next
    case True
    note pp = sys_read_pos [OF p True]
    from "1.prems" p True have r: "md5_loop fl (pos + nat k) (md5 @ bs) io1 = (b, m)"
      by (simp add: md5_loop.simps [of fl pos md5 io])
    from "1.IH" [OF p [symmetric] refl True r]
    have ih: "b = - 1 \<or> b = 0 \<and> m = (md5 @ bs) @ drop (pos + nat k) fl" .
    from pp have k: "nat k = length bs" by simp
    from pp have bs: "bs = take (length bs) (drop pos fl)" by blast
    have "bs @ drop (pos + length bs) fl = drop pos fl"
    proof -
      have "take (length bs) (drop pos fl) @ drop (length bs) (drop pos fl) = drop pos fl"
        by (rule append_take_drop_id)
      with bs show ?thesis by (simp add: add.commute)
    qed
    with ih k show ?thesis by auto
  qed
qed

lemma ReadDumpFile_open_failed:
  assumes "fs path = None"
  shows "ReadDumpFile fs io path offset count br0 c0
       = \<lparr>status = IOError ''fd open failed'', out_data = [], out_bytes_read = br0, out_checksum = c0\<rparr>"
  using assms by (simp add: ReadDumpFile_def)

lemma ReadDumpFile_spec:
  assumes "fs path = Some fl"
  shows "\<exists>n. n \<le> unat count
     \<and> out_bytes_read (ReadDumpFile fs io path offset count 0 c0) = word_of_nat n
     \<and> out_data (ReadDumpFile fs io path offset count 0 c0) = take n (drop (unat offset) fl)
     \<and> n \<le> length fl - unat offset
     \<and> (status (ReadDumpFile fs io path offset count 0 c0) = OK \<longrightarrow>
          out_checksum (ReadDumpFile fs io path offset count 0 c0) = MD5Hex fl
          \<and> n = min (unat count) (length fl - unat offset))"
proof -
  let ?st0 = "loop_init offset count 0"
  obtain b st io1 where l: "pread_loop fl ?st0 io = ((b, st), io1)"
    by (metis prod.exhaust)
  have k0: "(word_of_int kMaxCopyBlockSize :: size_t) \<noteq> 0"
    by (simp add: kMaxCopyBlockSize_def)
  have inv: "loop_inv ?st0"
    using k0 by (auto simp: loop_inv_def loop_init_def)
  from pread_loop_inv [OF l inv] have "\<exists>n. n \<le> unat count
       \<and> unat (left_read_count st) = unat count - n
       \<and> bytes_read st = word_of_nat n
       \<and> data st = take n (drop (unat offset) fl)
       \<and> n \<le> length fl - unat offset
       \<and> unat (read_offset st) = unat offset + n
       \<and> (b = 0 \<longrightarrow> left_read_count st = 0 \<or> length fl \<le> unat (read_offset st))"
    by (simp add: loop_init_def)
  then obtain n where
    n: "n \<le> unat count"
       "unat (left_read_count st) = unat count - n"
       "bytes_read st = word_of_nat n"
       "data st = take n (drop (unat offset) fl)"
       "n \<le> length fl - unat offset"
       "unat (read_offset st) = unat offset + n"
       "b = 0 \<longrightarrow> left_read_count st = 0 \<or> length fl \<le> unat (read_offset st)"
    by auto
  from pread_loop_exit [of fl ?st0 io] l have b: "b = 0 \<or> b = - 1" by simp
  obtain b2 m where m: "md5_loop fl 0 [] io1 = (b2, m)"
    by (metis prod.exhaust)
  from md5_loop_result [OF m] have m2: "b2 = - 1 \<or> (b2 = 0 \<and> m = fl)" by simp
  let ?r = "ReadDumpFile fs io path offset count 0 c0"
  have r1: "out_bytes_read ?r = word_of_nat n" "out_data ?r = take n (drop (unat offset) fl)"
    using assms l m n(3,4) by (auto simp: ReadDumpFile_def)
  have ok: "status ?r = OK \<longrightarrow> b = 0 \<and> out_checksum ?r = MD5Hex fl"
    using assms l m b m2 by (auto simp: ReadDumpFile_def)
  have "b = 0 \<longrightarrow> n = min (unat count) (length fl - unat offset)"
  proof
    assume "b = 0"
    with n(7) have "left_read_count st = 0 \<or> length fl \<le> unat (read_offset st)" by simp
    then show "n = min (unat count) (length fl - unat offset)"
    proof
      assume "left_read_count st = 0"
      then have "unat (left_read_count st) = 0" by simp
      with n(1,2,5) show ?thesis by arith
    next
      assume "length fl \<le> unat (read_offset st)"
      with n(1,5,6) show ?thesis by arith
    qed
  qed
  with ok n(1,5) r1 show ?thesis by blast
qed








lemma out_data_le_count:
  "length (out_data (ReadDumpFile fs io path offset count 0 c0)) \<le> unat count"
proof (cases "fs path")
  case None
  then show ?thesis by (simp add: ReadDumpFile_open_failed)
next
  case (Some fl)
  from ReadDumpFile_spec [where fs = fs and path = path, OF Some] obtain n where
    "n \<le> unat count"
    "out_data (ReadDumpFile fs io path offset count 0 c0) = take n (drop (unat offset) fl)"
    by blast
  then show ?thesis by simp
qed

lemma loop_init_read_count:
  "unat (read_count (loop_init offset count b0)) = min (unat count) (2 ^ 20)"
  by (auto simp: loop_init_def kMaxCopyBlockSize_def word_less_nat_alt)

lemma loop_body_read_count:
  "case loop_body st bytesin of Break \<Rightarrow> True
   | Continue st' \<Rightarrow> read_count st' \<le> read_count st"
  by (auto simp: loop_body_def Let_def)

section \<open>Properties of the reader and of the file handler\<close>


lemma HandleFile_ok_response:
  assumes "WriteResp resp \<in> set (events_of (HandleFileRsyncRequest server fs io conn_ok heap req))"
      and "code resp = kOk"
  shows "\<exists>slot. GetDBSlotById server (req_db_name req) (req_slot_id req) = Some slot
     \<and> status (ReadDumpFile fs io (bgsave_info_path slot @ ''/'' @ freq_filename (req_file_req req))
            (freq_offset (req_file_req req)) (freq_count (req_file_req req)) 0 EmptyString) = OK
     \<and> file_resp resp = Some
          \<lparr>fresp_data = take (unat (out_bytes_read (ReadDumpFile fs io (bgsave_info_path slot @ ''/'' @ freq_filename (req_file_req req))
            (freq_offset (req_file_req req)) (freq_count (req_file_req req)) 0 EmptyString)))
              (out_data (ReadDumpFile fs io (bgsave_info_path slot @ ''/'' @ freq_filename (req_file_req req))
            (freq_offset (req_file_req req)) (freq_count (req_file_req req)) 0 EmptyString)),
           fresp_eof = (out_bytes_read (ReadDumpFile fs io (bgsave_info_path slot @ ''/'' @ freq_filename (req_file_req req))
            (freq_offset (req_file_req req)) (freq_count (req_file_req req)) 0 EmptyString) \<noteq> freq_count (req_file_req req)),
           fresp_checksum = out_checksum (ReadDumpFile fs io (bgsave_info_path slot @ ''/'' @ freq_filename (req_file_req req))
            (freq_offset (req_file_req req)) (freq_count (req_file_req req)) 0 EmptyString),
           fresp_filename = freq_filename (req_file_req req),
           fresp_count = out_bytes_read (ReadDumpFile fs io (bgsave_info_path slot @ ''/'' @ freq_filename (req_file_req req))
            (freq_offset (req_file_req req)) (freq_count (req_file_req req)) 0 EmptyString),
           fresp_offset = freq_offset (req_file_req req)\<rparr>"
  using assms
  by (cases "GetDumpUUID server (req_db_name req) (req_slot_id req)")
     (auto simp: HandleFileRsyncRequest_def RsyncWriteResp_def Let_def
           split: if_splits option.splits)

section \<open>Properties of the data filter's cache and of update\_version\<close>

lemma cache_ok_new: "cache_ok meta_cf new_filter"
  by (simp add: cache_ok_def new_filter_def)




lemma ListsDataFilter_decision:
  assumes "cache_ok meta_cf c" and "parse_data_key key = Inr (user_key, version_d, index)"
  shows "fst (ListsDataFilter meta_cf now c key)
       = (case meta_cf user_key of
            None \<Rightarrow> True
          | Some m \<Rightarrow> (mv_ttl m \<noteq> 0 \<and> mv_ttl m < now) \<or> version_d < mv_version m)"
proof (cases "last_user_key c = Some user_key")
  case True
  with assms show ?thesis
    by (auto simp: ListsDataFilter_def cache_ok_def Let_def split: option.splits)
next
  case False
  with assms(2) show ?thesis
    by (auto simp: ListsDataFilter_def lookup_meta_def Let_def split: option.splits)
qed

lemma store_int32_id: "- (2 ^ 31) \<le> v \<Longrightarrow> v < 2 ^ 31 \<Longrightarrow> store_int32 v = v"
  by (simp add: store_int32_def sint_sbintrunc' signed_take_bit_int_eq_self)

lemma store_int64_id: "- (2 ^ 63) \<le> v \<Longrightarrow> v < 2 ^ 63 \<Longrightarrow> store_int64 v = v"
  by (simp add: store_int64_def sint_sbintrunc' signed_take_bit_int_eq_self)

lemma store_int32_less: "store_int32 v < 2 ^ 31"
  using sint_lt [of "word_of_int v :: 32 word"] by (simp add: store_int32_def)

lemma formula_versions_gt: "x \<in> set (formula_versions v ts) \<Longrightarrow> v < x"
proof (induction ts arbitrary: v)
  case Nil
  then show ?case by simp
next
  case (Cons t ts)
  from Cons.prems have "x = max (v + 1) t \<or> x \<in> set (formula_versions (max (v + 1) t) ts)"
    by simp
  then show ?case
  proof
    assume "x = max (v + 1) t" then show ?thesis by simp
  next
    assume "x \<in> set (formula_versions (max (v + 1) t) ts)"
    from Cons.IH [OF this] show ?thesis by simp
  qed
qed

lemma formula_versions_sorted: "sorted_wrt (<) (formula_versions v ts)"
proof (induction ts arbitrary: v)
  case Nil
  show ?case by simp
next
  case (Cons t ts)
  have "\<forall>x \<in> set (formula_versions (max (v + 1) t) ts). max (v + 1) t < x"
    using formula_versions_gt [of _ "max (v + 1) t" ts] by simp
  with Cons.IH [of "max (v + 1) t"] show ?case by simp
qed

lemma update_versions_formula:
  assumes "- (2 ^ 31) \<le> mv_version m"
      and "\<forall>x \<in> set (formula_versions (mv_version m) ts). x < 2 ^ 31"
  shows "update_versions m ts = formula_versions (mv_version m) ts"
  using assms
proof (induction ts arbitrary: m)
  case Nil
  show ?case by simp
next
  case (Cons t ts)
  let ?v = "max (mv_version m + 1) t"
  from Cons.prems(2) have lt: "?v < 2 ^ 31" by simp
  from Cons.prems(1) have ge: "- (2 ^ 31) \<le> ?v" by simp
  from store_int32_id [OF ge lt] have st: "store_int32 ?v = ?v" .
  let ?m' = "m\<lparr>mv_version := ?v\<rparr>"
  have "update_versions ?m' ts = formula_versions (mv_version ?m') ts"
    using ge Cons.prems(2) by (intro Cons.IH) simp_all
  with st show ?case by (simp add: update_version_def Let_def)
qed

section \<open>Evaluation on concrete inputs\<close>

text \<open>The definitions that a run of the reader and of the handlers unfolds.\<close>

lemmas reader_eval = ReadDumpFile_def loop_init_def pread_def sys_read_def
  loop_body_def kMaxCopyBlockSize_def SSIZE_MAX_def Let_def

lemmas handler_eval = HandleFileRsyncRequest_def HandleMetaRsyncRequest_def RsyncWriteResp_def
  file_request_def meta_request_def heap0_def PTRDIFF_MAX_def

lemma replicate_append_same: "replicate m x @ replicate n x = replicate (m + n) x"
  by (simp add: replicate_add)

lemma replicate_append_same2: "replicate m x @ replicate n x @ ys = replicate (m + n) x @ ys"
  by (simp add: replicate_add)

text \<open>The last chunk of the four-byte file: two bytes for the eight asked for.\<close>

lemma small_last_chunk:
  "HandleFileRsyncRequest server0 fs_small [] True heap0 (file_request ''db0'' 0 ''f'' 2 8)
   = Returned [WriteResp \<lparr>code = kOk, resp_type = kRsyncFile, db_name = ''db0'', slot_id = 0,
        snapshot_uuid = ''uuid-1'', meta_resp = None, file_resp = Some
          \<lparr>fresp_data = [3, 4], fresp_eof = True, fresp_checksum = MD5Hex [1, 2, 3, 4],
           fresp_filename = ''f'', fresp_count = 2, fresp_offset = 2\<rparr>\<rparr>, NotifyWrite]"
  by (simp add: handler_eval server0_def fs_small_def reader_eval)

text \<open>A count of \<open>2 ^ 63\<close>: the buffer is not to be had, and the handler does not get as far
  as the reader. A count of \<open>2 ^ 64 - 1\<close>: the buffer has no bytes, and the four bytes of the
  file are stored past it.\<close>

lemma file_request_bad_alloc:
  "HandleFileRsyncRequest server0 fs_small [] True heap0
     (file_request ''db0'' 0 ''f'' 0 9223372036854775808) = BadAlloc []"
  by (simp add: handler_eval server0_def)

lemma file_request_buffer_overrun:
  "HandleFileRsyncRequest server0 fs_small [] True heap0
     (file_request ''db0'' 0 ''f'' 0 18446744073709551615) = BufferOverrun []"
  by (simp add: handler_eval server0_def fs_small_def reader_eval)



lemma parse_meta_S3:
  "parse_meta [1, 0, 0, 0, 0, 0, 0, 0, 3, 0, 0, 0, 128, 132, 30, 0, 0, 0, 0, 0]
   = Inr \<lparr>mv_size = 1, mv_version = 3, mv_ttl = 2000000, mv_trailing = []\<rparr>"
  by (simp add: parse_meta_def)

lemma parse_meta_S4:
  "parse_meta [1, 0, 0, 0, 0, 0, 0, 0, 3, 0, 0, 0, 32, 161, 7, 0, 0, 0, 0, 0]
   = Inr \<lparr>mv_size = 1, mv_version = 3, mv_ttl = 500000, mv_trailing = []\<rparr>"
  by (simp add: parse_meta_def)

section \<open>The snapshot reader\<close>

text \<open>
  C1, as the specification has it, fails: the scenario's first request, \<open>count\<close> = 3 MiB at
  offset 0 of the 2.5 MiB file, is answered with the whole file, 2621440 bytes and
  \<open>eof = true\<close>, not with 1 MiB. \<^verbatim>\<open>kMaxCopyBlockSize\<close> bounds one \<^verbatim>\<open>pread\<close>, and the loop
  goes on until \<open>count\<close> bytes are read or the file ends.
\<close>

theorem C1_counterexample:
  "HandleFileRsyncRequest server0 fs_sst [] True heap0 (file_request ''db0'' 0 ''00001.sst'' 0 3145728)
   = Returned [WriteResp \<lparr>code = kOk, resp_type = kRsyncFile, db_name = ''db0'', slot_id = 0,
        snapshot_uuid = ''uuid-1'', meta_resp = None, file_resp = Some
          \<lparr>fresp_data = replicate 2621440 0, fresp_eof = True,
           fresp_checksum = MD5Hex (replicate 2621440 0),
           fresp_filename = ''00001.sst'', fresp_count = 2621440, fresp_offset = 0\<rparr>\<rparr>, NotifyWrite]
   \<and> \<not> unat (out_bytes_read (ReadDumpFile fs_sst [] ''dump/00001.sst'' 0 3145728 0 EmptyString))
         \<le> min (unat (3145728 :: size_t)) (2 ^ 20)"
  by (simp add: handler_eval server0_def fs_sst_def reader_eval replicate_append_same replicate_append_same2)

text \<open>
  C1, amended. For every call of \<^verbatim>\<open>ReadDumpFile\<close> as the handler makes it (\<open>bytes_read\<close> 0 on
  entry), whatever the file, the offset, the count and the behaviour of the reads: the
  number of bytes delivered is at most \<open>count\<close>, the data delivered has that length, and
  when the call succeeds the number is exactly the smaller of \<open>count\<close> and the bytes the
  file has from \<open>offset\<close> on. The bound \<open>min(count, 1 MiB)\<close> is that of one \<^verbatim>\<open>pread\<close>: the
  loop is entered with it as \<^verbatim>\<open>read_count\<close>, and no pass of the loop raises \<^verbatim>\<open>read_count\<close>.
\<close>

theorem C1_bytes_read_at_most_count:
  "unat (out_bytes_read (ReadDumpFile fs io path offset count 0 c0)) \<le> unat count
   \<and> length (out_data (ReadDumpFile fs io path offset count 0 c0))
       = unat (out_bytes_read (ReadDumpFile fs io path offset count 0 c0))
   \<and> (\<forall>fl. fs path = Some fl \<and> status (ReadDumpFile fs io path offset count 0 c0) = OK \<longrightarrow>
         unat (out_bytes_read (ReadDumpFile fs io path offset count 0 c0))
           = min (unat count) (length fl - unat offset))
   \<and> unat (read_count (loop_init offset count 0)) = min (unat count) (2 ^ 20)
   \<and> (case loop_body st bytesin of Break \<Rightarrow> True
       | Continue st' \<Rightarrow> read_count st' \<le> read_count st)"
proof (cases "fs path")
  case None
  then show ?thesis
    using loop_body_read_count [of st bytesin]
    by (simp add: ReadDumpFile_open_failed loop_init_read_count)
next
  case (Some fl)
  from ReadDumpFile_spec [where fs = fs and path = path, OF Some] obtain n where
    n: "n \<le> unat count"
       "out_bytes_read (ReadDumpFile fs io path offset count 0 c0) = word_of_nat n"
       "out_data (ReadDumpFile fs io path offset count 0 c0) = take n (drop (unat offset) fl)"
       "n \<le> length fl - unat offset"
       "status (ReadDumpFile fs io path offset count 0 c0) = OK \<longrightarrow>
          n = min (unat count) (length fl - unat offset)"
    by blast
  have "unat count < 2 ^ 64" using unsigned_less [of count] by simp
  with n(1) have u: "unat (word_of_nat n :: size_t) = n" by (simp add: unat_of_nat)
  from n(2) u have br: "unat (out_bytes_read (ReadDumpFile fs io path offset count 0 c0)) = n"
    by simp
  from n(3,4) have "length (out_data (ReadDumpFile fs io path offset count 0 c0)) = n" by simp
  with br n(1,5) Some loop_body_read_count [of st bytesin] show ?thesis
    by (auto simp: loop_init_read_count)
qed

text \<open>C1 amended, at the third request of the scenario: 1 MiB asked for at offset 2 MiB of the
  2.5 MiB file succeeds with the 0.5 MiB that are left.\<close>

theorem C1_bytes_read_at_most_count_witness:
  "fs_sst ''dump/00001.sst'' = Some (replicate 2621440 0)
   \<and> status (ReadDumpFile fs_sst [] ''dump/00001.sst'' 2097152 1048576 0 EmptyString) = OK
   \<and> unat (out_bytes_read (ReadDumpFile fs_sst [] ''dump/00001.sst'' 2097152 1048576 0 EmptyString))
       = 524288
   \<and> length (out_data (ReadDumpFile fs_sst [] ''dump/00001.sst'' 2097152 1048576 0 EmptyString))
       = 524288"
  using C1_bytes_read_at_most_count [of fs_sst "[]" "''dump/00001.sst''" 2097152 1048576 EmptyString
      "loop_init 2097152 1048576 0" 524288]
  by (simp add: fs_sst_def reader_eval replicate_append_same replicate_append_same2)

text \<open>
  C2, as the specification has it, fails: two bytes asked for at the start of a four-byte
  file come back with \<open>eof = false\<close> and with the digest of the whole file as checksum, not
  with an empty one. The first loop ends only with \<^verbatim>\<open>bytesin\<close> 0 or -1, so after a
  successful read of the range \<^verbatim>\<open>bytesin == 0\<close> always holds and the digest is always
  computed.
\<close>

theorem C2_counterexample:
  "HandleFileRsyncRequest server0 fs_small [] True heap0 (file_request ''db0'' 0 ''f'' 0 2)
   = Returned [WriteResp \<lparr>code = kOk, resp_type = kRsyncFile, db_name = ''db0'', slot_id = 0,
        snapshot_uuid = ''uuid-1'', meta_resp = None, file_resp = Some
          \<lparr>fresp_data = [1, 2], fresp_eof = False, fresp_checksum = MD5Hex [1, 2, 3, 4],
           fresp_filename = ''f'', fresp_count = 2, fresp_offset = 0\<rparr>\<rparr>, NotifyWrite]"
  by (simp add: handler_eval server0_def fs_small_def reader_eval)

text \<open>
  C2, amended. Every response with \<open>code = Ok\<close> that the FileReq handler writes carries
  the file response of an existing partition and an existing file, and in it: the
  checksum is the hex MD5 digest of the entire file, whether or not the chunk is the last;
  \<open>count\<close> is the smaller of the requested count and what the file has from the offset
  on; \<open>data\<close> are those bytes of the file; and \<open>eof\<close> holds exactly when fewer bytes
  are returned than were requested.
\<close>

theorem C2_checksum_on_every_success:
  assumes "WriteResp resp \<in> set (events_of (HandleFileRsyncRequest server fs io conn_ok heap req))"
      and "code resp = kOk"
  shows "\<exists>slot fl fr.
      GetDBSlotById server (req_db_name req) (req_slot_id req) = Some slot
    \<and> fs (bgsave_info_path slot @ ''/'' @ freq_filename (req_file_req req)) = Some fl
    \<and> file_resp resp = Some fr
    \<and> fresp_checksum fr = MD5Hex fl
    \<and> unat (fresp_count fr)
        = min (unat (freq_count (req_file_req req))) (length fl - unat (freq_offset (req_file_req req)))
    \<and> fresp_data fr = take (unat (fresp_count fr)) (drop (unat (freq_offset (req_file_req req))) fl)
    \<and> fresp_eof fr = (unat (fresp_count fr) < unat (freq_count (req_file_req req)))"
proof -
  let ?count = "freq_count (req_file_req req)"
  let ?offset = "freq_offset (req_file_req req)"
  from HandleFile_ok_response [OF assms] obtain slot where
    slot: "GetDBSlotById server (req_db_name req) (req_slot_id req) = Some slot"
    and ok: "status (ReadDumpFile fs io (bgsave_info_path slot @ ''/'' @ freq_filename (req_file_req req))
            ?offset ?count 0 EmptyString) = OK"
    and fr: "file_resp resp = Some
          \<lparr>fresp_data = take (unat (out_bytes_read (ReadDumpFile fs io (bgsave_info_path slot @ ''/'' @ freq_filename (req_file_req req))
            ?offset ?count 0 EmptyString)))
              (out_data (ReadDumpFile fs io (bgsave_info_path slot @ ''/'' @ freq_filename (req_file_req req))
            ?offset ?count 0 EmptyString)),
           fresp_eof = (out_bytes_read (ReadDumpFile fs io (bgsave_info_path slot @ ''/'' @ freq_filename (req_file_req req))
            ?offset ?count 0 EmptyString) \<noteq> ?count),
           fresp_checksum = out_checksum (ReadDumpFile fs io (bgsave_info_path slot @ ''/'' @ freq_filename (req_file_req req))
            ?offset ?count 0 EmptyString),
           fresp_filename = freq_filename (req_file_req req),
           fresp_count = out_bytes_read (ReadDumpFile fs io (bgsave_info_path slot @ ''/'' @ freq_filename (req_file_req req))
            ?offset ?count 0 EmptyString),
           fresp_offset = ?offset\<rparr>"
    by blast
  let ?path = "bgsave_info_path slot @ ''/'' @ freq_filename (req_file_req req)"
  let ?r = "ReadDumpFile fs io ?path ?offset ?count 0 EmptyString"
  from ok obtain fl where fl: "fs ?path = Some fl"
    by (cases "fs ?path") (simp_all add: ReadDumpFile_open_failed)
  from ReadDumpFile_spec [where fs = fs and path = ?path, OF fl] ok obtain n where
    n: "n \<le> unat ?count" "out_bytes_read ?r = word_of_nat n"
       "out_data ?r = take n (drop (unat ?offset) fl)"
       "n \<le> length fl - unat ?offset"
       "out_checksum ?r = MD5Hex fl"
       "n = min (unat ?count) (length fl - unat ?offset)"
    by blast
  have "unat ?count < 2 ^ 64" using unsigned_less [of ?count] by simp
  with n(1) have u: "unat (word_of_nat n :: size_t) = n" by (simp add: unat_of_nat)
  have ne: "(word_of_nat n \<noteq> ?count) = (n < unat ?count)"
  proof -
    have "(word_of_nat n = ?count) = (unat (word_of_nat n :: size_t) = unat ?count)"
      by (simp only: word_unat_eq_iff)
    with u n(1) show ?thesis by auto
  qed
  show ?thesis
  proof (intro exI conjI)
    show "GetDBSlotById server (req_db_name req) (req_slot_id req) = Some slot" by (rule slot)
    show "fs ?path = Some fl" by (rule fl)
    show "file_resp resp = Some
          \<lparr>fresp_data = take n (drop (unat ?offset) fl), fresp_eof = (n < unat ?count),
           fresp_checksum = MD5Hex fl, fresp_filename = freq_filename (req_file_req req),
           fresp_count = word_of_nat n, fresp_offset = ?offset\<rparr>"
      using fr n(2,3,5) ne u by simp
  qed (use u n(6) in simp_all)
qed

text \<open>C2 amended, at the last chunk of the four-byte file: eight bytes asked for at offset 2,
  two returned, \<open>eof = true\<close>, the digest of the four bytes.\<close>

theorem C2_checksum_on_every_success_witness:
  "WriteResp \<lparr>code = kOk, resp_type = kRsyncFile, db_name = ''db0'', slot_id = 0,
        snapshot_uuid = ''uuid-1'', meta_resp = None, file_resp = Some
          \<lparr>fresp_data = [3, 4], fresp_eof = True, fresp_checksum = MD5Hex [1, 2, 3, 4],
           fresp_filename = ''f'', fresp_count = 2, fresp_offset = 2\<rparr>\<rparr>
     \<in> set (events_of (HandleFileRsyncRequest server0 fs_small [] True heap0 (file_request ''db0'' 0 ''f'' 2 8)))
   \<and> (\<exists>slot fl fr.
      GetDBSlotById server0 ''db0'' 0 = Some slot
    \<and> fs_small (bgsave_info_path slot @ ''/'' @ ''f'') = Some fl
    \<and> fr = \<lparr>fresp_data = [3, 4], fresp_eof = True, fresp_checksum = MD5Hex [1, 2, 3, 4],
           fresp_filename = ''f'', fresp_count = 2, fresp_offset = 2\<rparr>
    \<and> fresp_checksum fr = MD5Hex fl
    \<and> unat (fresp_count fr) = min 8 (length fl - 2)
    \<and> fresp_data fr = take (unat (fresp_count fr)) (drop 2 fl)
    \<and> fresp_eof fr = (unat (fresp_count fr) < 8))"
proof -
  let ?resp = "\<lparr>code = kOk, resp_type = kRsyncFile, db_name = ''db0'', slot_id = 0,
        snapshot_uuid = ''uuid-1'', meta_resp = None, file_resp = Some
          \<lparr>fresp_data = [3, 4], fresp_eof = True, fresp_checksum = MD5Hex [1, 2, 3, 4],
           fresp_filename = ''f'', fresp_count = 2, fresp_offset = 2\<rparr>\<rparr>"
  have h: "WriteResp ?resp
     \<in> set (events_of (HandleFileRsyncRequest server0 fs_small [] True heap0 (file_request ''db0'' 0 ''f'' 2 8)))"
    by (simp add: small_last_chunk)
  have c: "code ?resp = kOk" by simp
  from C2_checksum_on_every_success [OF h c] h show ?thesis
    by (simp add: file_request_def)
qed




text \<open>
  C9. In the first loop of \<^verbatim>\<open>ReadDumpFile\<close>, \<^verbatim>\<open>left_read_count\<close> is unsigned: the branch
  \<^verbatim>\<open>if (left_read_count < 0) break;\<close> is taken for no state and no value of \<^verbatim>\<open>bytesin\<close>; the
  subtraction before it wraps modulo \<open>2 ^ 64\<close>. So the loop ends only through its
  condition, with \<^verbatim>\<open>pread\<close> having returned 0 or -1; and once \<^verbatim>\<open>read_count\<close> is 0 the
  next \<^verbatim>\<open>pread\<close> returns no bytes and the loop ends there, its state unchanged.
\<close>

theorem C9_guard_never_taken:
  "loop_body st bytesin \<noteq> Break
   \<and> (case loop_body st bytesin of Break \<Rightarrow> False
       | Continue st' \<Rightarrow>
           uint (left_read_count st') = (uint (left_read_count st) - bytesin) mod 2 ^ 64)
   \<and> (fst (fst (pread_loop fl st io)) = 0 \<or> fst (fst (pread_loop fl st io)) = - 1)
   \<and> (read_count st = 0 \<longrightarrow> snd (fst (pread_loop fl st io)) = st)"
proof (intro conjI)
  show "loop_body st bytesin \<noteq> Break" by (rule loop_body_never_Break)
  show "case loop_body st bytesin of Break \<Rightarrow> False
       | Continue st' \<Rightarrow>
           uint (left_read_count st') = (uint (left_read_count st) - bytesin) mod 2 ^ 64"
    by (simp add: loop_body_def Let_def uint_word_ariths uint_word_of_int mod_diff_right_eq)
  show "fst (fst (pread_loop fl st io)) = 0 \<or> fst (fst (pread_loop fl st io)) = - 1"
    by (rule pread_loop_exit)
  show "read_count st = 0 \<longrightarrow> snd (fst (pread_loop fl st io)) = st"
  proof
    assume z: "read_count st = 0"
    obtain k bs io' where p: "pread fl (read_count st) (read_offset st) io = ((k, bs), io')"
      by (metis prod.exhaust)
    have "\<not> 0 < k"
    proof
      assume k: "0 < k"
      from pread_pos [OF p k] k z show False by auto
    qed
    with p show "snd (fst (pread_loop fl st io)) = st"
      by (simp add: pread_loop.simps [of fl st io])
  qed
qed

text \<open>C9, at a state with \<^verbatim>\<open>read_count\<close> 0 and \<^verbatim>\<open>left_read_count\<close> 1: taking 2 away wraps to
  \<open>2 ^ 64 - 1\<close> and the loop goes on to its next test, where \<^verbatim>\<open>pread\<close> of 0 bytes returns 0.\<close>

theorem C9_guard_never_taken_witness:
  "read_count \<lparr>read_offset = 0, read_count = 0, left_read_count = 1, data = [], bytes_read = 0\<rparr> = 0
   \<and> loop_body \<lparr>read_offset = 0, read_count = 0, left_read_count = 1, data = [], bytes_read = 0\<rparr> 2
       = Continue \<lparr>read_offset = 2, read_count = 0, left_read_count = 18446744073709551615,
                    data = [], bytes_read = 2\<rparr>
   \<and> pread_loop [1, 2, 3, 4]
         \<lparr>read_offset = 0, read_count = 0, left_read_count = 1, data = [], bytes_read = 0\<rparr> []
       = ((0, \<lparr>read_offset = 0, read_count = 0, left_read_count = 1, data = [], bytes_read = 0\<rparr>), [])"
  using C9_guard_never_taken [of "\<lparr>read_offset = 0, read_count = 0, left_read_count = 1, data = [], bytes_read = 0\<rparr>"
      2 "[1, 2, 3, 4]" "[]"]
  by (simp add: reader_eval)

section \<open>The rsync server\<close>

text \<open>
  C5, as the specification has it, fails in its first half: for a partition that the
  registry does not have, the MetaReq handler writes nothing at all, no \<open>Err\<close> response
  either. The test \<^verbatim>\<open>!slot || slot->IsBgSaving()\<close> sends both cases to the same
  \<^verbatim>\<open>return\<close>.
\<close>

theorem C5_counterexample:
  "GetDBSlotById server0 ''db1'' 0 = None
   \<and> HandleMetaRsyncRequest server0 True (meta_request ''db1'' 0) = Returned []"
  by (simp add: handler_eval server0_def)

text \<open>
  C5, amended. The MetaReq handler does nothing to the connection exactly when the
  partition is absent from the registry or reports \<^verbatim>\<open>IsBgSaving\<close>: in both cases the request
  is silently dropped. No response that it writes has \<open>code = Err\<close>.
\<close>

theorem C5_meta_request_dropped:
  "(HandleMetaRsyncRequest server conn_ok req = Returned []
      \<longleftrightarrow> (case GetDBSlotById server (req_db_name req) (req_slot_id req) of
             None \<Rightarrow> True | Some slot \<Rightarrow> IsBgSaving slot))
   \<and> (\<forall>resp. WriteResp resp \<in> set (events_of (HandleMetaRsyncRequest server conn_ok req))
          \<longrightarrow> code resp = kOk)"
  by (cases "GetDumpMeta server (req_db_name req) (req_slot_id req)")
     (auto simp: HandleMetaRsyncRequest_def RsyncWriteResp_def Let_def split: option.splits)

text \<open>C5 amended, at a partition that is saving (dropped) and at one that is not (answered
  with \<open>Ok\<close> and the file list).\<close>

theorem C5_meta_request_dropped_witness:
  "GetDBSlotById server_bgsaving ''db0'' 0 = Some \<lparr>IsBgSaving = True, bgsave_info_path = ''dump''\<rparr>
   \<and> HandleMetaRsyncRequest server_bgsaving True (meta_request ''db0'' 0) = Returned []
   \<and> WriteResp \<lparr>code = kOk, resp_type = kRsyncMeta, db_name = ''db0'', slot_id = 0,
            snapshot_uuid = ''uuid-1'', meta_resp = Some \<lparr>filenames = [''00001.sst'']\<rparr>,
            file_resp = None\<rparr>
       \<in> set (events_of (HandleMetaRsyncRequest server0 True (meta_request ''db0'' 0)))
   \<and> HandleMetaRsyncRequest server0 True (meta_request ''db0'' 0) \<noteq> Returned []"
  using C5_meta_request_dropped [of server_bgsaving True "meta_request ''db0'' 0"]
    C5_meta_request_dropped [of server0 True "meta_request ''db0'' 0"]
  by (simp add: handler_eval server_bgsaving_def server0_def)

text \<open>
  C6. For a FileReq whose partition does not exist the handler should respond \<open>Err\<close>
  and process the request no further. Where the uuid lookup succeeds and the registry
  yields no slot, the handler writes the \<open>Err\<close> response and then, the \<^verbatim>\<open>if (!slot)\<close> block
  having no \<^verbatim>\<open>return\<close>, goes on to \<^verbatim>\<open>slot->bgsave_info()\<close> on the null pointer.
\<close>

theorem C6_missing_return:
  "GetDumpUUID server0 ''db1'' 0 = (True, ''uuid-1'')
   \<and> GetDBSlotById server0 ''db1'' 0 = None
   \<and> HandleFileRsyncRequest server0 fs_small [] True heap0 (file_request ''db1'' 0 ''f'' 0 2)
       = NullDeref [WriteResp \<lparr>code = kErr, resp_type = kRsyncFile, db_name = ''db1'', slot_id = 0,
            snapshot_uuid = ''uuid-1'', meta_resp = None, file_resp = None\<rparr>, NotifyWrite]"
  by (simp add: handler_eval server0_def)

text \<open>
  C10. For a frame that parses as a request whose type is neither \<^verbatim>\<open>kRsyncMeta\<close> nor
  \<^verbatim>\<open>kRsyncFile\<close>, \<^verbatim>\<open>DealMessage\<close> returns 0, so the connection is kept and read further, and
  schedules no task; the tasks being all that writes to the connection, no response
  frame is written.
\<close>

theorem C10_unknown_type_ignored:
  assumes "req_type req \<noteq> kRsyncMeta" and "req_type req \<noteq> kRsyncFile"
  shows "DealMessage (Some req) = (0, [])
     \<and> concat (map (\<lambda>t. events_of (run_task server fs io conn_ok heap t)) (snd (DealMessage (Some req)))) = []"
  using assms by (cases "req_type req") (simp_all add: DealMessage_def)

text \<open>C10, at a request whose type field holds some other value.\<close>

theorem C10_unknown_type_ignored_witness:
  "req_type \<lparr>req_type = kOtherType 7, req_db_name = ''db0'', req_slot_id = 0,
      req_file_req = \<lparr>freq_filename = [], freq_offset = 0, freq_count = 0\<rparr>\<rparr> \<noteq> kRsyncMeta
   \<and> req_type \<lparr>req_type = kOtherType 7, req_db_name = ''db0'', req_slot_id = 0,
      req_file_req = \<lparr>freq_filename = [], freq_offset = 0, freq_count = 0\<rparr>\<rparr> \<noteq> kRsyncFile
   \<and> DealMessage (Some \<lparr>req_type = kOtherType 7, req_db_name = ''db0'', req_slot_id = 0,
      req_file_req = \<lparr>freq_filename = [], freq_offset = 0, freq_count = 0\<rparr>\<rparr>) = (0, [])"
  using C10_unknown_type_ignored [of "\<lparr>req_type = kOtherType 7, req_db_name = ''db0'', req_slot_id = 0,
      req_file_req = \<lparr>freq_filename = [], freq_offset = 0, freq_count = 0\<rparr>\<rparr>"]
  by simp

section \<open>The compaction filters and update\_version\<close>



text \<open>
  C4. For a meta value that parses, the meta filter drops the record exactly when the
  stored size is 0, or the stored ttl is not 0 and is less than the current time. The
  filter is a function of the clock reading and the value alone.
\<close>

theorem C4_meta_filter_decision:
  assumes "parse_meta v = Inr m"
  shows "ListsMetaFilter now v \<longleftrightarrow> mv_size m = 0 \<or> (mv_ttl m \<noteq> 0 \<and> mv_ttl m < now)"
  using assms by (simp add: ListsMetaFilter_def)

text \<open>C4, at scenarios S4 (ttl 500000, dropped at 1000000) and S3 (ttl 2000000, kept).\<close>

theorem C4_meta_filter_decision_witness:
  "parse_meta [1, 0, 0, 0, 0, 0, 0, 0, 3, 0, 0, 0, 32, 161, 7, 0, 0, 0, 0, 0]
     = Inr \<lparr>mv_size = 1, mv_version = 3, mv_ttl = 500000, mv_trailing = []\<rparr>
   \<and> ListsMetaFilter 1000000 [1, 0, 0, 0, 0, 0, 0, 0, 3, 0, 0, 0, 32, 161, 7, 0, 0, 0, 0, 0]
   \<and> \<not> ListsMetaFilter 1000000 [1, 0, 0, 0, 0, 0, 0, 0, 3, 0, 0, 0, 128, 132, 30, 0, 0, 0, 0, 0]"
  using C4_meta_filter_decision [OF parse_meta_S4, of 1000000]
    C4_meta_filter_decision [OF parse_meta_S3, of 1000000]
  by (simp add: parse_meta_S4)

text \<open>
  C8, as the specification has it, fails: the version is a signed 32-bit field, and on a
  record whose version is \<open>2 ^ 31 - 1\<close> the larger of the old version plus 1 and the clock
  reading is \<open>2 ^ 31\<close> or more, which the field cannot hold; whatever it holds after the
  call is not greater than what it held before.
\<close>

theorem C8_counterexample:
  "update_version 1700000000 \<lparr>mv_size = 1, mv_version = 2147483647, mv_ttl = 0, mv_trailing = []\<rparr>
     = (- 2147483648, \<lparr>mv_size = 1, mv_version = - 2147483648, mv_ttl = 0, mv_trailing = []\<rparr>)
   \<and> \<not> mv_version \<lparr>mv_size = 1, mv_version = 2147483647, mv_ttl = 0, mv_trailing = []\<rparr>
       < mv_version (snd (update_version 1700000000
           \<lparr>mv_size = 1, mv_version = 2147483647, mv_ttl = 0, mv_trailing = []\<rparr>))"
  by (simp add: update_version_def store_int32_def Let_def)

text \<open>
  C8, amended. On a meta record (its version a signed 32-bit value), an \<^verbatim>\<open>update_version\<close>
  call for which the larger of the old version plus 1 and the clock reading is below
  \<open>2 ^ 31\<close> sets the stored version to it, returns it, and so raises the version; and over
  any sequence of calls on one record for which the versions that the formula gives
  all stay below \<open>2 ^ 31\<close>, the calls set exactly those versions and the stored version
  grows strictly from call to call, whatever the clock readings are, also when the clock
  steps back. The version after a call is always below \<open>2 ^ 31\<close>: a record whose version
  is \<open>2 ^ 31 - 1\<close> is given no greater one.
\<close>

theorem C8_update_version_increases:
  assumes "- (2 ^ 31) \<le> mv_version m"
  shows "(max (mv_version m + 1) now < 2 ^ 31 \<longrightarrow>
            fst (update_version now m) = max (mv_version m + 1) now
          \<and> mv_version (snd (update_version now m)) = max (mv_version m + 1) now
          \<and> mv_version m < mv_version (snd (update_version now m)))
     \<and> ((\<forall>x \<in> set (formula_versions (mv_version m) ts). x < 2 ^ 31) \<longrightarrow>
            update_versions m ts = formula_versions (mv_version m) ts
          \<and> sorted_wrt (<) (mv_version m # update_versions m ts))
     \<and> mv_version (snd (update_version now m)) < 2 ^ 31"
proof (intro conjI impI)
  show "mv_version (snd (update_version now m)) < 2 ^ 31"
    using store_int32_less [of "max (mv_version m + 1) now"]
    by (simp add: update_version_def Let_def)
next
  assume lt: "max (mv_version m + 1) now < 2 ^ 31"
  from assms have "- (2 ^ 31) \<le> max (mv_version m + 1) now" by simp
  from store_int32_id [OF this lt]
  have st: "store_int32 (max (mv_version m + 1) now) = max (mv_version m + 1) now" .
  from st show "fst (update_version now m) = max (mv_version m + 1) now"
    by (simp add: update_version_def Let_def)
  from st show "mv_version (snd (update_version now m)) = max (mv_version m + 1) now"
    by (simp add: update_version_def Let_def)
  from st show "mv_version m < mv_version (snd (update_version now m))"
    by (simp add: update_version_def Let_def)
next
  assume fit: "\<forall>x \<in> set (formula_versions (mv_version m) ts). x < 2 ^ 31"
  from update_versions_formula [OF assms fit]
  show eq: "update_versions m ts = formula_versions (mv_version m) ts" .
  show "sorted_wrt (<) (mv_version m # update_versions m ts)"
    using formula_versions_gt [of _ "mv_version m" ts] formula_versions_sorted [of "mv_version m" ts]
    by (simp add: eq)
qed

text \<open>C8 amended, at four calls on a record of version 0 while the clock reads 100, 50, 50
  and 10.\<close>

theorem C8_update_version_increases_witness:
  "- (2 ^ 31) \<le> mv_version \<lparr>mv_size = 1, mv_version = 0, mv_ttl = 0, mv_trailing = []\<rparr>
   \<and> formula_versions 0 [100, 50, 50, 10] = [100, 101, 102, 103]
   \<and> update_version 100 \<lparr>mv_size = 1, mv_version = 0, mv_ttl = 0, mv_trailing = []\<rparr>
       = (100, \<lparr>mv_size = 1, mv_version = 100, mv_ttl = 0, mv_trailing = []\<rparr>)
   \<and> update_versions \<lparr>mv_size = 1, mv_version = 0, mv_ttl = 0, mv_trailing = []\<rparr> [100, 50, 50, 10]
       = [100, 101, 102, 103]
   \<and> sorted_wrt (<) (0 # update_versions \<lparr>mv_size = 1, mv_version = 0, mv_ttl = 0, mv_trailing = []\<rparr>
                            [100, 50, 50, 10])"
proof -
  have g: "- (2 ^ 31) \<le> mv_version \<lparr>mv_size = 1, mv_version = 0, mv_ttl = 0, mv_trailing = []\<rparr>"
    by simp
  have f: "formula_versions 0 [100, 50, 50, 10] = [100, 101, 102, 103]" by simp
  have u: "update_version 100 \<lparr>mv_size = 1, mv_version = 0, mv_ttl = 0, mv_trailing = []\<rparr>
       = (100, \<lparr>mv_size = 1, mv_version = 100, mv_ttl = 0, mv_trailing = []\<rparr>)"
    by (simp add: update_version_def store_int32_def Let_def)
  from C8_update_version_increases [OF g, of 100 "[100, 50, 50, 10]"] f u g
  show ?thesis by simp
qed

section \<open>The expectations of lists\_filter\_test.cc\<close>

text \<open>
  The assertions of \<^verbatim>\<open>MetaFilterTest\<close>, for a value that parses to \<open>m\<close>: an empty list is
  dropped; a list of one element is kept without a ttl, kept one second after its ttl was
  set three seconds ahead, dropped two seconds after its ttl was set one second ahead
  (\<open>t\<close>, the clock reading when the ttl is set, is a time of this age).
\<close>

lemma MetaFilterTest_expectations:
  assumes "parse_meta v = Inr m" and "0 < t" and "t < 2 ^ 62"
  shows "(mv_size m = 0 \<longrightarrow> ListsMetaFilter now v)
     \<and> (mv_size m = 1 \<and> mv_ttl m = 0 \<longrightarrow> \<not> ListsMetaFilter now v)
     \<and> (mv_size m = 1 \<and> m = set_relative_timestamp t 3 m0 \<longrightarrow> \<not> ListsMetaFilter (t + 1) v)
     \<and> (mv_size m = 1 \<and> m = set_relative_timestamp t 1 m0 \<longrightarrow> ListsMetaFilter (t + 2) v)"
proof -
  from assms(2,3) have "store_int64 (t + 3) = t + 3" "store_int64 (t + 1) = t + 1"
    by (simp_all add: store_int64_id)
  with assms show ?thesis
    by (auto simp: ListsMetaFilter_def set_relative_timestamp_def)
qed

text \<open>
  The assertions of \<^verbatim>\<open>DataFilterTest\<close>, for a fresh filter and a key of the version that
  \<^verbatim>\<open>UpdateVersion\<close> returned: the record is kept while the meta stands as it was written
  without a ttl, dropped once the meta went through \<^verbatim>\<open>UpdateVersion\<close> again, and dropped
  once the meta is deleted (the versions of the two calls fit the field).
\<close>

lemma DataFilterTest_expectations:
  assumes "update_version t1 m0 = (v1, m1)" and "update_version t2 m1 = (v2, m2)"
      and "parse_data_key key = Inr (k, v1, idx)" and "mv_ttl m0 = 0"
      and "- (2 ^ 31) \<le> mv_version m0" and "max (max (mv_version m0 + 1) t1 + 1) t2 < 2 ^ 31"
  shows "(meta_cf k = Some m1 \<longrightarrow> \<not> fst (ListsDataFilter meta_cf now new_filter key))
     \<and> (meta_cf k = Some m2 \<longrightarrow> fst (ListsDataFilter meta_cf now new_filter key))
     \<and> (meta_cf k = None \<longrightarrow> fst (ListsDataFilter meta_cf now new_filter key))"
proof -
  from assms(5,6) have "store_int32 (max (mv_version m0 + 1) t1) = max (mv_version m0 + 1) t1"
    by (intro store_int32_id) simp_all
  with assms(1) have m1: "mv_version m1 = v1" "mv_ttl m1 = mv_ttl m0"
    "v1 = max (mv_version m0 + 1) t1"
    by (auto simp: update_version_def Let_def)
  from assms(5,6) m1 have "store_int32 (max (v1 + 1) t2) = max (v1 + 1) t2"
    by (intro store_int32_id) simp_all
  with assms(2) m1(1) have "mv_version m2 = max (v1 + 1) t2"
    by (auto simp: update_version_def Let_def)
  then have m2: "v1 < mv_version m2" by simp
  from ListsDataFilter_decision [OF cache_ok_new assms(3), of meta_cf now] m1 m2 assms(4)
  show ?thesis by auto
qed

end
